theory Spec2Isabelle
  imports Main "HOL-Library.Word" "HOL-Library.Monad_Syntax"
begin

section \<open>LockedQueue.h: the queue with a lock\<close>

text \<open>
  \<^verbatim>\<open>LockedQueue<T_>\<close> holds a \<^verbatim>\<open>std::queue<T_> m_que\<close> and the flag
  \<^verbatim>\<open>m_bShutdown\<close>. Every member function takes \<^verbatim>\<open>m_mutexQue\<close> for its whole
  body, so each call is one atomic step on this record. The front of the
  \<^verbatim>\<open>std::queue\<close> is the head of the list, \<^verbatim>\<open>push\<close> appends at the end.
\<close>

record 'a LockedQueue =
  m_que :: "'a list"
  m_bShutdown :: bool

definition LockedQueue_ctor :: "'a LockedQueue" where
  "LockedQueue_ctor = \<lparr>m_que = [], m_bShutdown = False\<rparr>"

definition Enq :: "'a \<Rightarrow> 'a LockedQueue \<Rightarrow> bool \<times> 'a LockedQueue" where
  "Enq pcData q =
     (if m_bShutdown q then (False, q)
      else (True, q\<lparr>m_que := m_que q @ [pcData]\<rparr>))"

text \<open>
  The predicate both waits of \<^verbatim>\<open>Deq\<close> are given:
  \<^verbatim>\<open>!m_que.empty() || m_bShutdown\<close>.
\<close>

definition que_ready :: "'a LockedQueue \<Rightarrow> bool" where
  "que_ready q \<longleftrightarrow> m_que q \<noteq> [] \<or> m_bShutdown q"

text \<open>
  The two waits on the condition variable, for a caller that no other thread
  serves while it waits. \<^verbatim>\<open>wait(lock, pred)\<close> returns only once the predicate
  holds: where it does not hold the call never returns, which is the value
  \<open>None\<close>. \<^verbatim>\<open>wait_for(lock, timeout, pred)\<close> always returns, with the value of
  the predicate.
\<close>

definition cv_wait :: "('s \<Rightarrow> bool) \<Rightarrow> 's \<Rightarrow> unit option" where
  "cv_wait pred s = (if pred s then Some () else None)"

definition cv_wait_for :: "64 word \<Rightarrow> ('s \<Rightarrow> bool) \<Rightarrow> 's \<Rightarrow> bool" where
  "cv_wait_for cTimeout pred s = pred s"

text \<open>
  What a call of \<^verbatim>\<open>Deq\<close> does: it never returns, it returns its boolean
  with the out-parameter \<^verbatim>\<open>pcData\<close> and the queue, or it calls
  \<^verbatim>\<open>front()\<close> on an empty \<^verbatim>\<open>std::queue\<close>, which is undefined behaviour.
\<close>

datatype 'a deq_result =
    Deq_blocks
  | Deq_returns bool 'a "'a LockedQueue"
  | Deq_front_of_empty

definition Deq :: "'a \<Rightarrow> 64 word \<Rightarrow> 'a LockedQueue \<Rightarrow> 'a deq_result" where
  "Deq pcData unTimeout q =
     (case (if unTimeout = 0
            then map_option (\<lambda>_. True) (cv_wait que_ready q)
            else Some (cv_wait_for unTimeout que_ready q)) of
        None \<Rightarrow> Deq_blocks
      | Some bReady \<Rightarrow>
          if \<not> bReady \<or> (m_bShutdown q \<and> m_que q = []) then Deq_returns False pcData q
          else (case m_que q of
                  [] \<Rightarrow> Deq_front_of_empty
                | x # xs \<Rightarrow> Deq_returns True x (q\<lparr>m_que := xs\<rparr>)))"

definition Size :: "'a LockedQueue \<Rightarrow> nat" where
  "Size q = length (m_que q)"

definition Shutdown :: "'a LockedQueue \<Rightarrow> 'a LockedQueue" where
  "Shutdown q = q\<lparr>m_bShutdown := True\<rparr>"

definition IsShutdown :: "'a LockedQueue \<Rightarrow> bool" where
  "IsShutdown q = m_bShutdown q"

text \<open>
  A sequence of \<^verbatim>\<open>Enq\<close> calls, with the booleans they return, and a sequence
  of \<^verbatim>\<open>Deq\<close> calls, one per timeout, each given the out-parameter the call
  before left. The sequence of \<^verbatim>\<open>Deq\<close> calls stops at a call that does not
  return.
\<close>

fun Enq_seq :: "'a list \<Rightarrow> 'a LockedQueue \<Rightarrow> bool list \<times> 'a LockedQueue" where
  "Enq_seq [] q = ([], q)"
| "Enq_seq (x # xs) q =
     (case Enq x q of (b, q1) \<Rightarrow>
        (case Enq_seq xs q1 of (bs, q2) \<Rightarrow> (b # bs, q2)))"

fun Deq_seq ::
  "64 word list \<Rightarrow> 'a \<Rightarrow> 'a LockedQueue \<Rightarrow> ((bool \<times> 'a) list \<times> 'a LockedQueue) option" where
  "Deq_seq [] pcData q = Some ([], q)"
| "Deq_seq (t # ts) pcData q =
     (case Deq pcData t q of
        Deq_returns b d q1 \<Rightarrow>
          (case Deq_seq ts d q1 of
             None \<Rightarrow> None
           | Some (rs, q2) \<Rightarrow> Some ((b, d) # rs, q2))
      | _ \<Rightarrow> None)"

section \<open>Exceptions\<close>

text \<open>
  What a \<^verbatim>\<open>throw\<close> of this repository, or of a callback it invokes, carries:
  a \<^verbatim>\<open>std::logic_error\<close> with its message, another class derived from
  \<^verbatim>\<open>std::exception\<close> with its \<^verbatim>\<open>what()\<close>, or a value of a type that
  does not derive from \<^verbatim>\<open>std::exception\<close>.
\<close>

datatype exn =
    Logic_error string
  | Std_exception string
  | Non_std_exception

section \<open>Signal.h: waiting for a signal\<close>

text \<open>
  The two namespace-level atomics of \<^verbatim>\<open>LCC::Signal\<close>, \<^verbatim>\<open>g_snSignal\<close> (an
  \<^verbatim>\<open>int\<close>) and \<^verbatim>\<open>g_bWaitInUse\<close>, with the set of numbers that
  \<^verbatim>\<open>std::signal\<close> has been called with to install \<^verbatim>\<open>vSignalHandler\<close>.
  Whether such a call installs the handler or refuses the number is for the
  platform to decide; \<^verbatim>\<open>Wait\<close> does not look at what the call returns.
\<close>

record Signal =
  g_snSignal :: "32 word"
  g_bWaitInUse :: bool
  signal_calls :: "32 word set"

definition Signal_init :: Signal where
  "Signal_init = \<lparr>g_snSignal = 0, g_bWaitInUse = False, signal_calls = {}\<rparr>"

definition vSignalHandler :: "32 word \<Rightarrow> Signal \<Rightarrow> Signal" where
  "vSignalHandler snSig st = st\<lparr>g_snSignal := snSig\<rparr>"

text \<open>
  \<^verbatim>\<open>Raise(int64_t snSig)\<close>: the guard on zero comes first, then the store of
  \<^verbatim>\<open>static_cast<int>(snSig)\<close>, which keeps the low 32 bits.
\<close>

definition Raise :: "64 word \<Rightarrow> Signal \<Rightarrow> Signal" where
  "Raise snSig st = (if snSig = 0 then st else st\<lparr>g_snSignal := ucast snSig\<rparr>)"

text \<open>
  The polling loop of \<^verbatim>\<open>Wait\<close>. Each round exchanges the slot with zero,
  returns the value read when it is not zero (after it has cleared the in-use
  flag), and sleeps otherwise. What the rest of the process does during one
  sleep is an element of the trace the loop is given: nothing, or the last
  store into the slot (a delivered signal or a \<^verbatim>\<open>Raise\<close> of another thread).
  The loop has no exit but the return. The first component of the result is
  the value returned, or \<open>None\<close> when the trace ends with the loop still
  polling; the second is the state at that moment, which is the state another
  thread finds while this call is in progress.
\<close>

definition sleep_for :: "32 word option \<Rightarrow> Signal \<Rightarrow> Signal" where
  "sleep_for stored st = (case stored of None \<Rightarrow> st | Some snSig \<Rightarrow> vSignalHandler snSig st)"

fun Wait_poll :: "32 word option list \<Rightarrow> Signal \<Rightarrow> 64 word option \<times> Signal" where
  "Wait_poll [] st =
     (if (scast (g_snSignal st) :: 64 word) \<noteq> 0
      then (Some (scast (g_snSignal st)), st\<lparr>g_snSignal := 0, g_bWaitInUse := False\<rparr>)
      else (None, st\<lparr>g_snSignal := 0\<rparr>))"
| "Wait_poll (stored # trace) st =
     (if (scast (g_snSignal st) :: 64 word) \<noteq> 0
      then (Some (scast (g_snSignal st)), st\<lparr>g_snSignal := 0, g_bWaitInUse := False\<rparr>)
      else Wait_poll trace (sleep_for stored (st\<lparr>g_snSignal := 0\<rparr>)))"

text \<open>
  \<^verbatim>\<open>Wait(listSignal, unCheckIntervalMs)\<close>: the compare-and-exchange on the
  in-use flag, which throws when the flag was set and sets it otherwise; the
  call of \<^verbatim>\<open>std::signal\<close> for every number of the list; the polling loop.
  The first component of the result is what the call gives its caller, the
  exception or the signal number, or \<open>None\<close> when the call is still in
  progress at the end of the trace; the second is the state at that moment.
\<close>

definition Wait ::
  "64 word list \<Rightarrow> 64 word \<Rightarrow> 32 word option list \<Rightarrow> Signal \<Rightarrow> (exn + 64 word) option \<times> Signal" where
  "Wait listSignal unCheckIntervalMs trace st =
     (if g_bWaitInUse st
      then (Some (Inl (Logic_error ''LCC::Signal::Wait called while another Wait is in progress'')), st)
      else
        (let st1 = st\<lparr>g_bWaitInUse := True\<rparr>;
             st2 = fold (\<lambda>snSignal s. s\<lparr>signal_calls := insert (ucast snSignal) (signal_calls s)\<rparr>)
                     listSignal st1
         in case Wait_poll trace st2 of (returned, st3) \<Rightarrow> (map_option Inr returned, st3)))"

section \<open>EventDriven.h: the event loop\<close>

text \<open>
  How a call that may throw ends: it returns, an exception leaves it, or it
  runs into undefined behaviour. Each carries the state at that point.
\<close>

datatype 's outcome =
    Completes 's
  | Throws exn 's
  | Undefined_behaviour 's

text \<open>
  The handlers of a \<^verbatim>\<open>try\<close> block are tried in their order; an exception
  that none of them matches goes on to the caller. \<^verbatim>\<open>catch (const
  std::exception&)\<close> matches the classes derived from \<^verbatim>\<open>std::exception\<close>,
  \<^verbatim>\<open>catch (...)\<close> matches everything.
\<close>

datatype catch_clause = Catch_std_exception | Catch_all

fun catches :: "catch_clause \<Rightarrow> exn \<Rightarrow> bool" where
  "catches Catch_std_exception (Logic_error _) = True"
| "catches Catch_std_exception (Std_exception _) = True"
| "catches Catch_std_exception Non_std_exception = False"
| "catches Catch_all _ = True"

fun try_catch ::
  "'s outcome \<Rightarrow> (catch_clause \<times> (exn \<Rightarrow> 's \<Rightarrow> 's outcome)) list \<Rightarrow> 's outcome" where
  "try_catch (Throws ex s) handlers =
     (case find (\<lambda>(clause, handler). catches clause ex) handlers of
        None \<Rightarrow> Throws ex s
      | Some (clause, handler) \<Rightarrow> handler ex s)"
| "try_catch (Completes s) handlers = Completes s"
| "try_catch (Undefined_behaviour s) handlers = Undefined_behaviour s"

fun what :: "exn \<Rightarrow> string" where
  "what (Logic_error message) = message"
| "what (Std_exception message) = message"
| "what Non_std_exception = []"

text \<open>
  \<^verbatim>\<open>EventDriven<TEvent_>\<close> owns the queue \<^verbatim>\<open>m_queEvent\<close>. The second
  field is what has been written to \<^verbatim>\<open>std::cerr\<close>, line by line, which is
  where the two logging hooks of the class write. Derived classes extend the
  record.
\<close>

record 'ev EventDriven =
  m_queEvent :: "'ev LockedQueue"
  cerr :: "string list"

definition Post ::
  "'ev \<Rightarrow> ('ev, 'z) EventDriven_scheme \<Rightarrow> bool \<times> ('ev, 'z) EventDriven_scheme" where
  "Post msg s = (case Enq msg (m_queEvent s) of (b, q) \<Rightarrow> (b, s\<lparr>m_queEvent := q\<rparr>))"

definition EventDriven_LogOnEventException ::
  "exn \<Rightarrow> ('ev, 'z) EventDriven_scheme \<Rightarrow> ('ev, 'z) EventDriven_scheme" where
  "EventDriven_LogOnEventException ex s = s\<lparr>cerr := cerr s @ [''Exception in OnEvent: '' @ what ex]\<rparr>"

definition EventDriven_LogOnEventException_unknown ::
  "('ev, 'z) EventDriven_scheme \<Rightarrow> ('ev, 'z) EventDriven_scheme" where
  "EventDriven_LogOnEventException_unknown s = s\<lparr>cerr := cerr s @ [''Unknown Exception in OnEvent'']\<rparr>"

text \<open>
  How a call of \<^verbatim>\<open>Run\<close> ends: its loop condition became false, its
  \<^verbatim>\<open>Deq\<close> never returns, an exception leaves it, or the behaviour is
  undefined.
\<close>

datatype 's run_result =
    Run_returns 's
  | Run_blocks 's
  | Run_escapes exn 's
  | Run_undefined 's

text \<open>
  \<^verbatim>\<open>Run(fnContinue, unTimeout)\<close>. The three virtual functions it calls are
  parameters: \<open>vOnEvent\<close>, which may throw, and the two overloads of
  \<^verbatim>\<open>LogOnEventException\<close>, which write a line and return. The local
  \<^verbatim>\<open>msg\<close> is an argument, as it lives across the rounds of the loop. The
  first argument bounds the number of times the loop condition is evaluated;
  \<open>None\<close> says that the loop is still running after that many rounds.
\<close>

fun Run ::
  "nat \<Rightarrow> ('ev \<Rightarrow> ('ev, 'z) EventDriven_scheme \<Rightarrow> ('ev, 'z) EventDriven_scheme outcome)
     \<Rightarrow> (exn \<Rightarrow> ('ev, 'z) EventDriven_scheme \<Rightarrow> ('ev, 'z) EventDriven_scheme)
     \<Rightarrow> (('ev, 'z) EventDriven_scheme \<Rightarrow> ('ev, 'z) EventDriven_scheme)
     \<Rightarrow> (('ev, 'z) EventDriven_scheme \<Rightarrow> bool) \<Rightarrow> 64 word
     \<Rightarrow> 'ev \<Rightarrow> ('ev, 'z) EventDriven_scheme
     \<Rightarrow> ('ev, 'z) EventDriven_scheme run_result option" where
  "Run 0 vOnEvent LogStd LogUnknown fnContinue unTimeout msg s = None"
| "Run (Suc rounds) vOnEvent LogStd LogUnknown fnContinue unTimeout msg s =
     (if \<not> fnContinue s then Some (Run_returns s)
      else
        (case Deq msg unTimeout (m_queEvent s) of
           Deq_blocks \<Rightarrow> Some (Run_blocks s)
         | Deq_front_of_empty \<Rightarrow> Some (Run_undefined s)
         | Deq_returns False msg1 q \<Rightarrow>
             Run rounds vOnEvent LogStd LogUnknown fnContinue unTimeout msg1 (s\<lparr>m_queEvent := q\<rparr>)
         | Deq_returns True msg1 q \<Rightarrow>
             (case try_catch (vOnEvent msg1 (s\<lparr>m_queEvent := q\<rparr>))
                     [(Catch_std_exception, \<lambda>ex s1. Completes (LogStd ex s1)),
                      (Catch_all, \<lambda>ex s1. Completes (LogUnknown s1))] of
                Completes s2 \<Rightarrow>
                  Run rounds vOnEvent LogStd LogUnknown fnContinue unTimeout msg1 s2
              | Throws ex s2 \<Rightarrow> Some (Run_escapes ex s2)
              | Undefined_behaviour s2 \<Rightarrow> Some (Run_undefined s2))))"

section \<open>ProcessEvent.h and ProcessBase.h: handler registries and dispatch\<close>

text \<open>
  The three event structures and their variant. \<^verbatim>\<open>TimerId\<close> is
  \<^verbatim>\<open>uint64_t\<close>, \<^verbatim>\<open>SignalNo\<close> is \<^verbatim>\<open>int64_t\<close>; the payload pointer may be
  null.
\<close>

record MessageEvent =
  strEventName :: string
  spPayload :: "8 word list option"

record TimerEvent =
  unTimerId :: "64 word"

record SignalEvent =
  snSignal :: "64 word"

datatype ProcessEvent =
    Event_Message MessageEvent
  | Event_Timer TimerEvent
  | Event_Signal SignalEvent

text \<open>
  A handler is a \<^verbatim>\<open>std::function\<close> called with the event. It works on
  whatever its closure reaches, the state \<open>'u\<close>, and returns or throws.
\<close>

type_synonym 'u fnMessageHandler = "MessageEvent \<Rightarrow> 'u \<Rightarrow> exn option \<times> 'u"
type_synonym 'u fnTimerHandler = "TimerEvent \<Rightarrow> 'u \<Rightarrow> exn option \<times> 'u"
type_synonym 'u fnSignalHandler = "SignalEvent \<Rightarrow> 'u \<Rightarrow> exn option \<times> 'u"

text \<open>
  One use of a logging macro: the kind, the format string and the arguments.
  The elapsed time of a handler is read from the clock and stays opaque.
\<close>

datatype log_kind = LccDebug | LccInfo | LccAlert | LccError

datatype log_arg = Arg_string string | Arg_number "64 word" | Arg_elapsed

type_synonym log_entry = "log_kind \<times> string \<times> log_arg list"

text \<open>
  \<^verbatim>\<open>ProcessBase\<close> derives from \<^verbatim>\<open>EventDriven<ProcessEvent>\<close>. Beside its
  members the record holds what its functions reach outside the object: the
  state of \<^verbatim>\<open>LCC::Signal\<close>, the uses of the logging macros in their order,
  and the state the handlers work on.
\<close>

record 'u ProcessBase = "ProcessEvent EventDriven" +
  m_bRunning :: bool
  m_mapMessageHandler :: "string \<rightharpoonup> 'u fnMessageHandler"
  m_mapTimerHandler :: "64 word \<rightharpoonup> 'u fnTimerHandler"
  m_mapSignalHandler :: "64 word \<rightharpoonup> 'u fnSignalHandler"
  signal_state :: Signal
  logger :: "log_entry list"
  user :: 'u

definition ProcessBase_ctor :: "'u \<Rightarrow> 'u ProcessBase" where
  "ProcessBase_ctor u =
     \<lparr>m_queEvent = LockedQueue_ctor, cerr = [],
      m_bRunning = True,
      m_mapMessageHandler = Map.empty, m_mapTimerHandler = Map.empty,
      m_mapSignalHandler = Map.empty,
      signal_state = Signal_init, logger = [], user = u\<rparr>"

definition LCC_LOG :: "log_kind \<Rightarrow> string \<Rightarrow> log_arg list \<Rightarrow> 'u ProcessBase \<Rightarrow> 'u ProcessBase" where
  "LCC_LOG kind fmt args p = p\<lparr>logger := logger p @ [(kind, fmt, args)]\<rparr>"

text \<open>
  \<^verbatim>\<open>std::unordered_map::emplace\<close> inserts only where the key has no
  element; where it has one the map stays as it is.
\<close>

definition emplace :: "('k \<rightharpoonup> 'v) \<Rightarrow> 'k \<Rightarrow> 'v \<Rightarrow> ('k \<rightharpoonup> 'v)" where
  "emplace m k v = (case m k of None \<Rightarrow> m(k \<mapsto> v) | Some _ \<Rightarrow> m)"

text \<open>
  The registration functions. \<^verbatim>\<open>SIGUSR2\<close> is a macro of \<^verbatim>\<open><csignal>\<close>, an
  \<^verbatim>\<open>int\<close> whose value the platform chooses, so it is the first argument of
  the functions that use it.
\<close>

definition RegisterMessageHandler ::
  "32 word \<Rightarrow> string \<Rightarrow> 'u fnMessageHandler \<Rightarrow> 'u ProcessBase \<Rightarrow> 'u ProcessBase" where
  "RegisterMessageHandler SIGUSR2 strEventName_arg fnHandler p =
     (let p1 = LCC_LOG LccInfo ''Register Message handler for EventName[%s].''
                 [Arg_string strEventName_arg] p;
          p2 = p1\<lparr>m_mapMessageHandler := emplace (m_mapMessageHandler p1) strEventName_arg fnHandler\<rparr>
      in p2\<lparr>signal_state := Raise (scast SIGUSR2) (signal_state p2)\<rparr>)"

definition RegisterTimer ::
  "64 word \<Rightarrow> 'u fnTimerHandler \<Rightarrow> 'u ProcessBase \<Rightarrow> 'u ProcessBase" where
  "RegisterTimer unTimerId_arg fnHandler p =
     (let p1 = LCC_LOG LccInfo ''Register Timer handler for TimerId[%lu].''
                 [Arg_number unTimerId_arg] p
      in p1\<lparr>m_mapTimerHandler := emplace (m_mapTimerHandler p1) unTimerId_arg fnHandler\<rparr>)"

definition RegisterSignalHandler ::
  "32 word \<Rightarrow> 64 word \<Rightarrow> 'u fnSignalHandler \<Rightarrow> 'u ProcessBase \<Rightarrow> 'u ProcessBase outcome" where
  "RegisterSignalHandler SIGUSR2 snSignal_arg fnHandler p =
     (if snSignal_arg = scast SIGUSR2
      then Throws (Logic_error ''Cannot register SIGUSR2 handler: it is reserved for internal use'') p
      else
        (let p1 = LCC_LOG LccInfo ''Register Signal handler for SignalNo[%lu].''
                    [Arg_number snSignal_arg] p;
             p2 = p1\<lparr>m_mapSignalHandler := emplace (m_mapSignalHandler p1) snSignal_arg fnHandler\<rparr>
         in Completes (p2\<lparr>signal_state := Raise (scast SIGUSR2) (signal_state p2)\<rparr>)))"

text \<open>
  The call of a handler that was found, between the two debug lines: the
  handler's exception leaves the dispatch function before the second line.
\<close>

definition invoke ::
  "('e \<Rightarrow> 'u \<Rightarrow> exn option \<times> 'u) \<Rightarrow> 'e \<Rightarrow> string \<Rightarrow> log_arg \<Rightarrow> 'u ProcessBase
     \<Rightarrow> 'u ProcessBase outcome" where
  "invoke handler cEvent fmtEnd key p =
     (case handler cEvent (user p) of
        (Some ex, u) \<Rightarrow> Throws ex (p\<lparr>user := u\<rparr>)
      | (None, u) \<Rightarrow> Completes (LCC_LOG LccDebug fmtEnd [key, Arg_elapsed] (p\<lparr>user := u\<rparr>)))"

text \<open>
  \<^verbatim>\<open>vDispatchMessage\<close>: the result of \<^verbatim>\<open>find\<close> is \<open>None\<close> for
  \<^verbatim>\<open>end()\<close>. The branch for a missing handler logs and goes on, so that
  \<^verbatim>\<open>itr->second\<close> is then read from the end iterator.
\<close>

definition vDispatchMessage :: "MessageEvent \<Rightarrow> 'u ProcessBase \<Rightarrow> 'u ProcessBase outcome" where
  "vDispatchMessage cEvent p =
     (let name = strEventName cEvent;
          itr = m_mapMessageHandler p name;
          p1 = (if itr = None
                then LCC_LOG LccAlert ''No handler registered for EventName[%s]'' [Arg_string name] p
                else p);
          p2 = LCC_LOG LccDebug ''EventName[%s] Handler Begin.'' [Arg_string name] p1
      in case itr of
           None \<Rightarrow> Undefined_behaviour p2
         | Some handler \<Rightarrow>
             invoke handler cEvent ''EventName[%s] Handler End. ElapsedTime[%ld]ms''
               (Arg_string name) p2)"

definition vDispatchTimer :: "TimerEvent \<Rightarrow> 'u ProcessBase \<Rightarrow> 'u ProcessBase outcome" where
  "vDispatchTimer cEvent p =
     (let timerId = unTimerId cEvent;
          itr = m_mapTimerHandler p timerId
      in case itr of
           None \<Rightarrow>
             Completes (LCC_LOG LccAlert ''No handler registered for TimerId[%lu]''
                          [Arg_number timerId] p)
         | Some handler \<Rightarrow>
             invoke handler cEvent ''TimerId[%lu] Handler End.ElapsedTime[%ld]ms''
               (Arg_number timerId)
               (LCC_LOG LccDebug ''TimerId[%lu] Handler Begin.'' [Arg_number timerId] p))"

definition vDispatchSignal :: "SignalEvent \<Rightarrow> 'u ProcessBase \<Rightarrow> 'u ProcessBase outcome" where
  "vDispatchSignal cEvent p =
     (let signalNo = snSignal cEvent;
          itr = m_mapSignalHandler p signalNo
      in case itr of
           None \<Rightarrow>
             Completes (LCC_LOG LccAlert ''No handler registered for TimerId[%lu]''
                          [Arg_number signalNo] p)
         | Some handler \<Rightarrow>
             invoke handler cEvent ''Signal[%ld] Handler End.ElapsedTime[%ld]ms''
               (Arg_number signalNo)
               (LCC_LOG LccDebug ''Signal[%ld] Handler Begin.'' [Arg_number signalNo] p))"

definition vOnEvent :: "ProcessEvent \<Rightarrow> 'u ProcessBase \<Rightarrow> 'u ProcessBase outcome" where
  "vOnEvent cEvent p =
     (case cEvent of
        Event_Message e \<Rightarrow> vDispatchMessage e p
      | Event_Timer e \<Rightarrow> vDispatchTimer e p
      | Event_Signal e \<Rightarrow> vDispatchSignal e p)"

text \<open>One call after another: the second is made when the first has returned.\<close>

fun and_then :: "'s outcome \<Rightarrow> ('s \<Rightarrow> 's outcome) \<Rightarrow> 's outcome" where
  "and_then (Completes s) f = f s"
| "and_then (Throws ex s) f = Throws ex s"
| "and_then (Undefined_behaviour s) f = Undefined_behaviour s"

section \<open>IniFile.h: the configuration reader\<close>









type_synonym Section = "string \<rightharpoonup> string"
type_synonym Data = "string \<rightharpoonup> Section"

record IniFile =
  m_mapData :: Data

text \<open>
  \<^verbatim>\<open>m_mapData[strSection][strKey] = strValue\<close>: each \<^verbatim>\<open>operator[]\<close>
  inserts an empty element where the key has none.
\<close>

definition assign :: "Data \<Rightarrow> string \<Rightarrow> string \<Rightarrow> string \<Rightarrow> Data" where
  "assign d strSection strKey strValue =
     d(strSection \<mapsto> (case d strSection of None \<Rightarrow> Map.empty | Some kvs \<Rightarrow> kvs)(strKey \<mapsto> strValue))"







definition Set_value :: "string \<Rightarrow> string \<Rightarrow> string \<Rightarrow> IniFile \<Rightarrow> IniFile" where
  "Set_value strSection strKey strValue ini =
     ini\<lparr>m_mapData := assign (m_mapData ini) strSection strKey strValue\<rparr>"


section \<open>Instances used in examples\<close>

text \<open>
  An event callback on events that are numbers: it throws a
  \<^verbatim>\<open>std::exception\<close> on 1, something else on 2, and writes a line on any
  other event. And a continue predicate that holds while the queue has items.
\<close>

definition failing_OnEvent :: "nat \<Rightarrow> nat EventDriven \<Rightarrow> nat EventDriven outcome" where
  "failing_OnEvent ev s =
     (if ev = 1 then Throws (Std_exception ''boom'') s
      else if ev = 2 then Throws Non_std_exception s
      else Completes (s\<lparr>cerr := cerr s @ [''handled'']\<rparr>))"

definition queue_not_empty :: "nat EventDriven \<Rightarrow> bool" where
  "queue_not_empty s \<longleftrightarrow> m_que (m_queEvent s) \<noteq> []"

section \<open>Properties of the queue\<close>

lemma Deq_nonempty:
  "m_que q = x # xs \<Longrightarrow> Deq d t q = Deq_returns True x (q\<lparr>m_que := xs\<rparr>)"
  by (simp add: Deq_def cv_wait_def cv_wait_for_def que_ready_def)

lemma Deq_drained:
  "m_que q = [] \<Longrightarrow> m_bShutdown q \<Longrightarrow> Deq d t q = Deq_returns False d q"
  by (simp add: Deq_def cv_wait_def cv_wait_for_def que_ready_def)

lemma Enq_seq_open:
  "\<not> m_bShutdown q \<Longrightarrow>
   Enq_seq xs q = (replicate (length xs) True, q\<lparr>m_que := m_que q @ xs\<rparr>)"
proof (induction xs arbitrary: q)
  case Nil
  then show ?case by simp
next
  case (Cons x xs)
  have "\<not> m_bShutdown (q\<lparr>m_que := m_que q @ [x]\<rparr>)"
    using Cons.prems by simp
  from Cons.IH [OF this] Cons.prems show ?case
    by (simp add: Enq_def)
qed

lemma Deq_keeps_flag:
  "Deq d t q = Deq_returns b y q' \<Longrightarrow> m_bShutdown q' = m_bShutdown q"
  by (cases "m_que q")
     (auto simp add: Deq_def cv_wait_def cv_wait_for_def que_ready_def split: if_splits)

text \<open>
  Claim C4. \<^verbatim>\<open>Shutdown\<close> sets the flag, and no \<^verbatim>\<open>Enq\<close>, \<^verbatim>\<open>Deq\<close> or
  \<^verbatim>\<open>Shutdown\<close> clears it again. In every state with the flag set,
  \<^verbatim>\<open>Enq\<close> returns false and the queue it leaves is the queue it found.
\<close>

theorem Enq_after_Shutdown:
  "m_bShutdown (Shutdown q) \<and>
   (m_bShutdown q \<longrightarrow>
      Enq x q = (False, q) \<and> m_que (snd (Enq x q)) = m_que q \<and>
      m_bShutdown (Shutdown q) \<and>
      (\<forall>d t b y q'. Deq d t q = Deq_returns b y q' \<longrightarrow> m_bShutdown q'))"
  using Deq_keeps_flag [of _ _ q]
  by (auto simp add: Enq_def Shutdown_def)

theorem Enq_after_Shutdown_witness:
  "m_bShutdown \<lparr>m_que = [1, 2 :: nat], m_bShutdown = True\<rparr> \<and>
   Enq 3 \<lparr>m_que = [1, 2 :: nat], m_bShutdown = True\<rparr>
     = (False, \<lparr>m_que = [1, 2], m_bShutdown = True\<rparr>) \<and>
   Deq 0 100 \<lparr>m_que = [1, 2 :: nat], m_bShutdown = True\<rparr>
     = Deq_returns True 1 \<lparr>m_que = [2], m_bShutdown = True\<rparr> \<and>
   m_bShutdown \<lparr>m_que = [2 :: nat], m_bShutdown = True\<rparr>"
  using Enq_after_Shutdown [of "\<lparr>m_que = [1, 2 :: nat], m_bShutdown = True\<rparr>" 3]
  by (simp add: Deq_nonempty)

lemma Deq_seq_drain:
  "length ts = length (m_que q) \<Longrightarrow>
   Deq_seq ts d q = Some (map (Pair True) (m_que q), q\<lparr>m_que := []\<rparr>)"
proof (induction ts arbitrary: d q)
  case Nil
  then show ?case by simp
next
  case (Cons t ts)
  then obtain x xs where q: "m_que q = x # xs"
    by (cases "m_que q") auto
  with Cons.prems have "length ts = length (m_que (q\<lparr>m_que := xs\<rparr>))"
    by simp
  from Cons.IH [OF this, of x] q show ?case
    by (simp add: Deq_nonempty)
qed

lemma Deq_seq_drained:
  "m_que q = [] \<Longrightarrow> m_bShutdown q \<Longrightarrow>
   Deq_seq ts d q = Some (replicate (length ts) (False, d), q)"
  by (induction ts) (simp_all add: Deq_drained)

lemma Deq_seq_append:
  "Deq_seq (ts @ us) d q =
     (case Deq_seq ts d q of
        None \<Rightarrow> None
      | Some (rs, q1) \<Rightarrow>
          (case Deq_seq us (last (d # map snd rs)) q1 of
             None \<Rightarrow> None
           | Some (rs', q2) \<Rightarrow> Some (rs @ rs', q2)))"
proof (induction ts arbitrary: d q)
  case Nil
  then show ?case by (simp split: option.splits)
next
  case (Cons t ts)
  show ?case
  proof (cases "Deq d t q")
    case (Deq_returns b d1 q1)
    then show ?thesis
      using Cons.IH [of d1 q1]
      by (auto split: option.splits)
  qed simp_all
qed

text \<open>
  Claim C10. For every queue state, out-parameter and timeout: a \<^verbatim>\<open>Deq\<close>
  that returns true found the queue non-empty, hands out its front element and
  leaves the rest; a \<^verbatim>\<open>Deq\<close> that returns false leaves the queue and the
  out-parameter as they were; \<^verbatim>\<open>front()\<close> is never called on an empty
  queue; and the call returns unless it waits without timeout on an empty queue
  that is not shut down.
\<close>

theorem Deq_front_only:
  "(Deq d t q = Deq_returns True x q' \<longrightarrow>
      m_que q = x # m_que q' \<and> m_bShutdown q' = m_bShutdown q) \<and>
   (Deq d t q = Deq_returns False x q' \<longrightarrow> q' = q \<and> x = d) \<and>
   Deq d t q \<noteq> Deq_front_of_empty \<and>
   (Deq d t q = Deq_blocks \<longleftrightarrow> t = 0 \<and> m_que q = [] \<and> \<not> m_bShutdown q)"
  by (cases "m_que q")
     (auto simp add: Deq_def cv_wait_def cv_wait_for_def que_ready_def)

theorem Deq_front_only_witness:
  "Deq 0 100 \<lparr>m_que = [7, 8 :: nat], m_bShutdown = False\<rparr>
     = Deq_returns True 7 \<lparr>m_que = [8], m_bShutdown = False\<rparr> \<and>
   m_que \<lparr>m_que = [7, 8 :: nat], m_bShutdown = False\<rparr>
     = 7 # m_que \<lparr>m_que = [8 :: nat], m_bShutdown = False\<rparr> \<and>
   Deq 0 100 \<lparr>m_que = [] :: nat list, m_bShutdown = False\<rparr>
     = Deq_returns False 0 \<lparr>m_que = [], m_bShutdown = False\<rparr> \<and>
   Deq 0 0 \<lparr>m_que = [] :: nat list, m_bShutdown = False\<rparr> = Deq_blocks"
proof -
  have a: "Deq 0 100 \<lparr>m_que = [7, 8 :: nat], m_bShutdown = False\<rparr>
     = Deq_returns True 7 \<lparr>m_que = [8], m_bShutdown = False\<rparr>"
    by (simp add: Deq_nonempty)
  have b: "Deq 0 100 \<lparr>m_que = [] :: nat list, m_bShutdown = False\<rparr>
     = Deq_returns False 0 \<lparr>m_que = [], m_bShutdown = False\<rparr>"
    by (simp add: Deq_def cv_wait_for_def que_ready_def)
  show ?thesis
    using a b
      Deq_front_only [of 0 100 "\<lparr>m_que = [7, 8 :: nat], m_bShutdown = False\<rparr>" 7
        "\<lparr>m_que = [8], m_bShutdown = False\<rparr>"]
      Deq_front_only [of 0 100 "\<lparr>m_que = [] :: nat list, m_bShutdown = False\<rparr>" 0
        "\<lparr>m_que = [], m_bShutdown = False\<rparr>"]
      Deq_front_only [of 0 0 "\<lparr>m_que = [] :: nat list, m_bShutdown = False\<rparr>"]
    by simp
qed

text \<open>
  Claim C3. On a queue that is not shut down every \<^verbatim>\<open>Enq\<close> of a sequence
  succeeds; as many \<^verbatim>\<open>Deq\<close> calls as there are items, with any timeouts,
  then return the items in the order of their arrival, each with success,
  whether \<^verbatim>\<open>Shutdown\<close> was called in between or not; and after
  \<^verbatim>\<open>Shutdown\<close> every further \<^verbatim>\<open>Deq\<close> on the drained queue returns
  false, leaving the out-parameter at the last item handed out.
\<close>

theorem queue_fifo_then_failure:
  assumes "\<not> m_bShutdown q" and "length ts = length (m_que q @ xs)"
  shows "fst (Enq_seq xs q) = replicate (length xs) True \<and>
         Deq_seq ts d (snd (Enq_seq xs q))
           = Some (map (Pair True) (m_que q @ xs), (snd (Enq_seq xs q))\<lparr>m_que := []\<rparr>) \<and>
         Deq_seq (ts @ us) d (Shutdown (snd (Enq_seq xs q)))
           = Some (map (Pair True) (m_que q @ xs)
                     @ replicate (length us) (False, last (d # m_que q @ xs)),
                   (Shutdown (snd (Enq_seq xs q)))\<lparr>m_que := []\<rparr>)"
proof -
  let ?q1 = "q\<lparr>m_que := m_que q @ xs\<rparr>"
  have e: "Enq_seq xs q = (replicate (length xs) True, ?q1)"
    using assms(1) by (rule Enq_seq_open)
  have len: "length ts = length (m_que ?q1)" "length ts = length (m_que (Shutdown ?q1))"
    using assms(2) by (simp_all add: Shutdown_def)
  have d1: "Deq_seq ts d ?q1 = Some (map (Pair True) (m_que q @ xs), ?q1\<lparr>m_que := []\<rparr>)"
    using Deq_seq_drain [OF len(1), of d] by simp
  have d2: "Deq_seq ts d (Shutdown ?q1)
              = Some (map (Pair True) (m_que q @ xs), (Shutdown ?q1)\<lparr>m_que := []\<rparr>)"
    using Deq_seq_drain [OF len(2), of d] by (simp add: Shutdown_def)
  have d3: "Deq_seq us d' ((Shutdown ?q1)\<lparr>m_que := []\<rparr>)
              = Some (replicate (length us) (False, d'), (Shutdown ?q1)\<lparr>m_que := []\<rparr>)" for d'
    by (rule Deq_seq_drained) (simp_all add: Shutdown_def)
  have m: "last (d # map snd (map (Pair True) (m_que q @ xs))) = last (d # m_que q @ xs)"
    by (simp add: comp_def)
  show ?thesis
    unfolding e fst_conv snd_conv
    apply (intro conjI)
      apply simp
     apply (rule d1)
    apply (simp only: Deq_seq_append d2 option.case prod.case m d3)
    done
qed

theorem queue_fifo_then_failure_witness:
  "Deq_seq [0, 100, 0, 0, 7] (0::nat) (Shutdown (snd (Enq_seq [10, 20, 30] LockedQueue_ctor)))
     = Some ([(True, 10), (True, 20), (True, 30), (False, 30), (False, 30)],
             \<lparr>m_que = [], m_bShutdown = True\<rparr>)"
  using queue_fifo_then_failure [of "LockedQueue_ctor :: nat LockedQueue" "[0, 100, 0]" "[10, 20, 30]" 0 "[0, 7]"]
  by (simp add: LockedQueue_ctor_def Shutdown_def Enq_def)

section \<open>Properties of the signal wait\<close>

lemma scast_int_eq_0: "(scast (w :: 32 word) :: 64 word) = 0 \<longleftrightarrow> w = 0"
proof
  assume z: "(scast w :: 64 word) = 0"
  have "(scast (scast w :: 64 word) :: 32 word) = w"
    by (rule scast_up_scast_id) (simp add: is_up)
  with z show "w = 0" by simp
qed simp

lemma sint_ucast_in_range:
  assumes "- (2 ^ 31) \<le> sint (n :: 64 word)" and "sint n < 2 ^ 31"
  shows "sint (ucast n :: 32 word) = sint n"
proof -
  have "(ucast :: 64 word \<Rightarrow> 32 word) = scast"
    by (rule down_cast_same) (simp add: is_down)
  then have "sint (ucast n :: 32 word) = signed_take_bit 31 (sint n)"
    by (simp add: signed_scast_eq)
  also have "\<dots> = sint n"
    using assms by (simp add: signed_take_bit_int_eq_self)
  finally show ?thesis .
qed

lemma Wait_poll_returns:
  "Wait_poll trace st = (Some v, st') \<Longrightarrow>
   v \<noteq> 0 \<and> g_snSignal st' = 0 \<and> \<not> g_bWaitInUse st' \<and> signal_calls st' = signal_calls st"
proof (induction trace arbitrary: st)
  case Nil
  then show ?case by (auto split: if_splits)
next
  case (Cons stored trace)
  show ?case
  proof (cases "(scast (g_snSignal st) :: 64 word) = 0")
    case True
    with Cons.prems
    have "Wait_poll trace (sleep_for stored (st\<lparr>g_snSignal := 0\<rparr>)) = (Some v, st')"
      by simp
    from Cons.IH [OF this] show ?thesis
      by (simp add: sleep_for_def vSignalHandler_def split: option.splits)
  next
    case False
    with Cons.prems show ?thesis by auto
  qed
qed

lemma Wait_poll_in_progress:
  "Wait_poll trace st = (None, st') \<Longrightarrow>
   g_bWaitInUse st' = g_bWaitInUse st \<and> signal_calls st' = signal_calls st"
proof (induction trace arbitrary: st)
  case Nil
  then show ?case by (auto split: if_splits)
next
  case (Cons stored trace)
  show ?case
  proof (cases "(scast (g_snSignal st) :: 64 word) = 0")
    case True
    with Cons.prems
    have "Wait_poll trace (sleep_for stored (st\<lparr>g_snSignal := 0\<rparr>)) = (None, st')"
      by simp
    from Cons.IH [OF this] show ?thesis
      by (simp add: sleep_for_def vSignalHandler_def split: option.splits)
  next
    case False
    with Cons.prems show ?thesis by auto
  qed
qed

lemma Wait_poll_pending:
  "g_snSignal st \<noteq> 0 \<Longrightarrow>
   Wait_poll trace st
     = (Some (scast (g_snSignal st)), st\<lparr>g_snSignal := 0, g_bWaitInUse := False\<rparr>)"
  by (cases trace) (simp_all add: scast_int_eq_0)

lemma Wait_poll_quiet:
  "g_snSignal st = 0 \<Longrightarrow> set quiet \<subseteq> {None, Some 0} \<Longrightarrow> Wait_poll quiet st = (None, st)"
proof (induction quiet arbitrary: st)
  case Nil
  then show ?case by simp
next
  case (Cons stored quiet)
  have s: "sleep_for stored (st\<lparr>g_snSignal := 0\<rparr>) = st"
    using Cons.prems by (auto simp add: sleep_for_def vSignalHandler_def)
  from Cons.prems have "set quiet \<subseteq> {None, Some 0}" by simp
  from Cons.IH [OF Cons.prems(1) this] Cons.prems(1) s show ?case
    by simp
qed

lemma Wait_poll_arrives:
  "g_snSignal st = 0 \<Longrightarrow> set quiet \<subseteq> {None, Some 0} \<Longrightarrow> snSig \<noteq> 0 \<Longrightarrow>
   Wait_poll (quiet @ Some snSig # trace) st
     = (Some (scast snSig), st\<lparr>g_snSignal := 0, g_bWaitInUse := False\<rparr>)"
proof (induction quiet arbitrary: st)
  case Nil
  have "st\<lparr>g_snSignal := 0\<rparr> = st" using Nil.prems(1) by simp
  with Nil show ?case
    using Wait_poll_pending [of "st\<lparr>g_snSignal := snSig\<rparr>" trace]
    by (simp add: sleep_for_def vSignalHandler_def)
next
  case (Cons stored quiet)
  have s: "sleep_for stored (st\<lparr>g_snSignal := 0\<rparr>) = st"
    using Cons.prems(1,2) by (auto simp add: sleep_for_def vSignalHandler_def)
  from Cons.prems have "set quiet \<subseteq> {None, Some 0}" by simp
  from Cons.IH [OF Cons.prems(1) this Cons.prems(3)] Cons.prems(1) s show ?case
    by simp
qed

lemma signal_calls_fold:
  "g_snSignal (fold (\<lambda>snSignal s. s\<lparr>signal_calls := insert (ucast snSignal) (signal_calls s)\<rparr>) l st) = g_snSignal st \<and>
   g_bWaitInUse (fold (\<lambda>snSignal s. s\<lparr>signal_calls := insert (ucast snSignal) (signal_calls s)\<rparr>) l st) = g_bWaitInUse st"
  by (induction l arbitrary: st) simp_all

text \<open>
  Claim C6. \<^verbatim>\<open>Wait\<close> called with the in-use flag set throws the logic error
  at once, whatever the trace, and changes nothing. A \<^verbatim>\<open>Wait\<close> that has
  entered and is still polling holds the flag, so that every \<^verbatim>\<open>Wait\<close>
  called in the meantime throws; and a call with the flag clear and nothing
  pending is in that state for as long as nothing but zero is stored. A return
  gives a signal number that is not zero, with the slot cleared and the flag
  cleared, so that no later \<^verbatim>\<open>Wait\<close> from that state throws. And the call
  does return: at once with the converted content of the slot when that is not
  zero, and with the first non-zero value stored during a sleep otherwise.
\<close>

theorem Wait_contract:
  "(g_bWaitInUse st \<longrightarrow>
      Wait listSignal ms trace st
        = (Some (Inl (Logic_error ''LCC::Signal::Wait called while another Wait is in progress'')), st)) \<and>
   (\<not> g_bWaitInUse st \<and> Wait listSignal ms trace st = (None, st') \<longrightarrow>
      g_bWaitInUse st' \<and>
      (\<forall>l' ms' trace'. Wait l' ms' trace' st'
         = (Some (Inl (Logic_error ''LCC::Signal::Wait called while another Wait is in progress'')), st'))) \<and>
   (\<not> g_bWaitInUse st \<and> g_snSignal st = 0 \<and> set quiet \<subseteq> {None, Some 0} \<longrightarrow>
      (\<exists>s. Wait listSignal ms quiet st = (None, s) \<and> g_bWaitInUse s)) \<and>
   (\<not> g_bWaitInUse st \<and> Wait listSignal ms trace st = (Some r, st') \<longrightarrow>
      (\<exists>snSignal. r = Inr snSignal \<and> snSignal \<noteq> 0) \<and>
      g_snSignal st' = 0 \<and> \<not> g_bWaitInUse st' \<and>
      (\<forall>l' ms' trace' e s. Wait l' ms' trace' st' \<noteq> (Some (Inl e), s))) \<and>
   (\<not> g_bWaitInUse st \<and> g_snSignal st \<noteq> 0 \<longrightarrow>
      (\<exists>s. Wait listSignal ms trace st = (Some (Inr (scast (g_snSignal st))), s))) \<and>
   (\<not> g_bWaitInUse st \<and> g_snSignal st = 0 \<and> set quiet \<subseteq> {None, Some 0} \<and> snSig \<noteq> 0 \<longrightarrow>
      (\<exists>s. Wait listSignal ms (quiet @ Some snSig # trace) st = (Some (Inr (scast snSig)), s)))"
proof (intro conjI impI)
  let ?st2 = "fold (\<lambda>snSignal s. s\<lparr>signal_calls := insert (ucast snSignal) (signal_calls s)\<rparr>) listSignal
         (st\<lparr>g_bWaitInUse := True\<rparr>)"
  have slot: "g_snSignal ?st2 = g_snSignal st" and flag: "g_bWaitInUse ?st2"
    by (simp_all add: signal_calls_fold)
  {
    assume "g_bWaitInUse st"
    then show "Wait listSignal ms trace st
        = (Some (Inl (Logic_error ''LCC::Signal::Wait called while another Wait is in progress'')), st)"
      by (simp add: Wait_def)
  }
  {
    assume a: "\<not> g_bWaitInUse st \<and> Wait listSignal ms trace st = (None, st')"
    then have p: "Wait_poll trace ?st2 = (None, st')"
      by (auto simp add: Wait_def Let_def split: prod.splits)
    from Wait_poll_in_progress [OF p] flag show f: "g_bWaitInUse st'" by simp
    then show "\<forall>l' ms' trace'. Wait l' ms' trace' st'
         = (Some (Inl (Logic_error ''LCC::Signal::Wait called while another Wait is in progress'')), st')"
      by (simp add: Wait_def)
  }
  {
    assume a: "\<not> g_bWaitInUse st \<and> g_snSignal st = 0 \<and> set quiet \<subseteq> {None, Some 0}"
    then have "g_snSignal ?st2 = 0" by (simp add: slot)
    from Wait_poll_quiet [OF this, of quiet] a flag
    show "\<exists>s. Wait listSignal ms quiet st = (None, s) \<and> g_bWaitInUse s"
      by (simp add: Wait_def Let_def)
  }
  {
    assume a: "\<not> g_bWaitInUse st \<and> Wait listSignal ms trace st = (Some r, st')"
    then obtain v where p: "Wait_poll trace ?st2 = (Some v, st')" and r: "r = Inr v"
      by (auto simp add: Wait_def Let_def split: prod.splits)
    note q = Wait_poll_returns [OF p]
    from q r show "\<exists>snSignal. r = Inr snSignal \<and> snSignal \<noteq> 0" by simp
    from q show "g_snSignal st' = 0" by simp
    from q show f: "\<not> g_bWaitInUse st'" by simp
    show "\<forall>l' ms' trace' e s. Wait l' ms' trace' st' \<noteq> (Some (Inl e), s)"
      using f by (auto simp add: Wait_def Let_def split: prod.splits)
  }
  {
    assume a: "\<not> g_bWaitInUse st \<and> g_snSignal st \<noteq> 0"
    with slot Wait_poll_pending [of ?st2 trace]
    show "\<exists>s. Wait listSignal ms trace st = (Some (Inr (scast (g_snSignal st))), s)"
      by (simp add: Wait_def Let_def)
  }
  {
    assume a: "\<not> g_bWaitInUse st \<and> g_snSignal st = 0 \<and> set quiet \<subseteq> {None, Some 0} \<and> snSig \<noteq> 0"
    then have "g_snSignal ?st2 = 0" by (simp add: slot)
    from Wait_poll_arrives [OF this, of quiet snSig trace] a
    show "\<exists>s. Wait listSignal ms (quiet @ Some snSig # trace) st = (Some (Inr (scast snSig)), s)"
      by (simp add: Wait_def Let_def)
  }
qed

theorem Wait_contract_witness:
  "Wait [15, 12] 200 [None, Some 0] Signal_init
     = (None, \<lparr>g_snSignal = 0, g_bWaitInUse = True, signal_calls = {12, 15}\<rparr>) \<and>
   Wait [2] 200 [Some 2] \<lparr>g_snSignal = 0, g_bWaitInUse = True, signal_calls = {12, 15}\<rparr>
     = (Some (Inl (Logic_error ''LCC::Signal::Wait called while another Wait is in progress'')),
        \<lparr>g_snSignal = 0, g_bWaitInUse = True, signal_calls = {12, 15}\<rparr>) \<and>
   Wait [15, 12] 200 [None, Some 0, Some 15, Some 2] Signal_init
     = (Some (Inr 15), \<lparr>g_snSignal = 0, g_bWaitInUse = False, signal_calls = {12, 15}\<rparr>) \<and>
   (\<forall>l' ms' trace' e s.
      Wait l' ms' trace' \<lparr>g_snSignal = 0, g_bWaitInUse = False, signal_calls = {12, 15}\<rparr>
        \<noteq> (Some (Inl e), s))"
proof -
  have p: "Wait [15, 12] 200 [None, Some 0] Signal_init
     = (None, \<lparr>g_snSignal = 0, g_bWaitInUse = True, signal_calls = {12, 15}\<rparr>)"
    by (simp add: Wait_def Signal_init_def sleep_for_def vSignalHandler_def)
  have w: "Wait [15, 12] 200 [None, Some 0, Some 15, Some 2] Signal_init
     = (Some (Inr 15), \<lparr>g_snSignal = 0, g_bWaitInUse = False, signal_calls = {12, 15}\<rparr>)"
    by (simp add: Wait_def Signal_init_def sleep_for_def vSignalHandler_def)
  show ?thesis
    using p w
      Wait_contract [of Signal_init "[15, 12]" 200 "[None, Some 0]"
        "\<lparr>g_snSignal = 0, g_bWaitInUse = True, signal_calls = {12, 15}\<rparr>"]
      Wait_contract [of Signal_init "[15, 12]" 200 "[None, Some 0, Some 15, Some 2]"
        "\<lparr>g_snSignal = 0, g_bWaitInUse = False, signal_calls = {12, 15}\<rparr>" _ "Inr 15"]
    by (simp add: Signal_init_def)
qed

text \<open>
  Claim C7 as stated fails for the value zero: \<^verbatim>\<open>Raise(0)\<close> returns at its
  guard and the slot keeps the signal that was pending.
\<close>

theorem Raise_zero_keeps_slot:
  "g_snSignal (Raise 0 \<lparr>g_snSignal = 15, g_bWaitInUse = False, signal_calls = {}\<rparr>) = 15 \<and>
   g_snSignal (Raise 0 \<lparr>g_snSignal = 15, g_bWaitInUse = False, signal_calls = {}\<rparr>) \<noteq> ucast (0 :: 64 word)"
  by (simp add: Raise_def)

text \<open>
  Claim C7, amended. For every signal number other than zero \<^verbatim>\<open>Raise\<close>
  overwrites the slot, whatever it held, with the number converted to
  \<^verbatim>\<open>int\<close>, which is the number itself when it fits an \<^verbatim>\<open>int\<close>;
  \<^verbatim>\<open>Raise(0)\<close> leaves the state as it was.
\<close>

theorem Raise_overwrites:
  "(snSig \<noteq> 0 \<longrightarrow>
      Raise snSig st = st\<lparr>g_snSignal := ucast snSig\<rparr> \<and>
      (- (2 ^ 31) \<le> sint snSig \<and> sint snSig < 2 ^ 31 \<longrightarrow>
         sint (g_snSignal (Raise snSig st)) = sint snSig)) \<and>
   Raise 0 st = st"
  by (simp add: Raise_def sint_ucast_in_range)

theorem Raise_overwrites_witness:
  "(12 :: 64 word) \<noteq> 0 \<and> - (2 ^ 31) \<le> sint (12 :: 64 word) \<and> sint (12 :: 64 word) < 2 ^ 31 \<and>
   Raise 12 \<lparr>g_snSignal = 15, g_bWaitInUse = False, signal_calls = {}\<rparr>
     = \<lparr>g_snSignal = 12, g_bWaitInUse = False, signal_calls = {}\<rparr> \<and>
   sint (g_snSignal (Raise 12 \<lparr>g_snSignal = 15, g_bWaitInUse = False, signal_calls = {}\<rparr>)) = 12"
  using Raise_overwrites [of 12 "\<lparr>g_snSignal = 15, g_bWaitInUse = False, signal_calls = {}\<rparr>"]
  by simp

section \<open>Properties of the event loop\<close>

lemma try_catch_loop_boundary:
  "try_catch r [(Catch_std_exception, \<lambda>ex s1. Completes (LogStd ex s1)),
                (Catch_all, \<lambda>ex s1. Completes (LogUnknown s1))] \<noteq> Throws ex s'"
proof (cases r)
  case (Throws e s)
  then show ?thesis by (cases e) simp_all
qed simp_all

lemma try_catch_caught:
  "try_catch (Throws ex s) [(Catch_std_exception, \<lambda>ex s1. Completes (LogStd ex s1)),
                (Catch_all, \<lambda>ex s1. Completes (LogUnknown s1))]
     = Completes (if catches Catch_std_exception ex then LogStd ex s else LogUnknown s)"
  by (cases ex) simp_all

lemma Run_never_escapes:
  "Run rounds onEvent LogStd LogUnknown fnContinue t msg s \<noteq> Some (Run_escapes ex s')"
proof (induction rounds arbitrary: msg s)
  case 0
  show ?case by simp
next
  case (Suc rounds)
  show ?case
  proof (cases "fnContinue s")
    case False
    then show ?thesis by simp
  next
    case True
    show ?thesis
    proof (cases "Deq msg t (m_queEvent s)")
      case Deq_blocks
      with True show ?thesis by simp
    next
      case Deq_front_of_empty
      with True show ?thesis by simp
    next
      case (Deq_returns b msg1 q)
      show ?thesis
      proof (cases b)
        case False
        with True Deq_returns Suc.IH show ?thesis by simp
      next
        case b: True
        let ?r = "try_catch (onEvent msg1 (s\<lparr>m_queEvent := q\<rparr>))
                     [(Catch_std_exception, \<lambda>ex s1. Completes (LogStd ex s1)),
                      (Catch_all, \<lambda>ex s1. Completes (LogUnknown s1))]"
        show ?thesis
        proof (cases ?r)
          case (Completes s2)
          with True Deq_returns b Suc.IH show ?thesis by simp
        next
          case (Throws e s2)
          with try_catch_loop_boundary [of "onEvent msg1 (s\<lparr>m_queEvent := q\<rparr>)" LogStd LogUnknown e s2]
          show ?thesis by simp
        next
          case (Undefined_behaviour s2)
          with True Deq_returns b show ?thesis by simp
        qed
      qed
    qed
  qed
qed

text \<open>
  Claim C5. No exception leaves \<^verbatim>\<open>Run\<close>, whatever the event callback
  throws, for every number of rounds, continue predicate and timeout. And when
  the callback throws in a round, the matching hook is called with the state
  the callback left, the one for \<^verbatim>\<open>std::exception\<close> or the other, and the
  loop goes on from there with its next round, which tests the continue
  predicate again.
\<close>

theorem Run_contains_failures:
  "Run rounds onEvent LogStd LogUnknown fnContinue t msg s \<noteq> Some (Run_escapes ex s') \<and>
   (fnContinue s \<and> Deq msg t (m_queEvent s) = Deq_returns True ev q \<and>
    onEvent ev (s\<lparr>m_queEvent := q\<rparr>) = Throws ex s1 \<longrightarrow>
      Run (Suc rounds) onEvent LogStd LogUnknown fnContinue t msg s
        = Run rounds onEvent LogStd LogUnknown fnContinue t ev
            (if catches Catch_std_exception ex then LogStd ex s1 else LogUnknown s1))"
proof (intro conjI impI)
  show "Run rounds onEvent LogStd LogUnknown fnContinue t msg s \<noteq> Some (Run_escapes ex s')"
    by (rule Run_never_escapes)
next
  assume a: "fnContinue s \<and> Deq msg t (m_queEvent s) = Deq_returns True ev q \<and>
    onEvent ev (s\<lparr>m_queEvent := q\<rparr>) = Throws ex s1"
  then show "Run (Suc rounds) onEvent LogStd LogUnknown fnContinue t msg s
        = Run rounds onEvent LogStd LogUnknown fnContinue t ev
            (if catches Catch_std_exception ex then LogStd ex s1 else LogUnknown s1)"
    by (simp add: try_catch_caught del: try_catch.simps)
qed

theorem Run_contains_failures_witness:
  "Run 4 failing_OnEvent EventDriven_LogOnEventException EventDriven_LogOnEventException_unknown
     queue_not_empty 100 0
     \<lparr>m_queEvent = \<lparr>m_que = [1, 2, 3], m_bShutdown = False\<rparr>, cerr = []\<rparr>
   = Some (Run_returns
       \<lparr>m_queEvent = \<lparr>m_que = [], m_bShutdown = False\<rparr>,
        cerr = [''Exception in OnEvent: boom'', ''Unknown Exception in OnEvent'', ''handled'']\<rparr>)"
proof -
  let ?s = "\<lparr>m_queEvent = \<lparr>m_que = [1, 2, 3 :: nat], m_bShutdown = False\<rparr>, cerr = []\<rparr>"
  let ?q = "\<lparr>m_que = [2, 3 :: nat], m_bShutdown = False\<rparr>"
  have h: "queue_not_empty ?s \<and> Deq 0 100 (m_queEvent ?s) = Deq_returns True 1 ?q \<and>
           failing_OnEvent 1 (?s\<lparr>m_queEvent := ?q\<rparr>)
             = Throws (Std_exception ''boom'') (?s\<lparr>m_queEvent := ?q\<rparr>)"
    by (simp add: queue_not_empty_def failing_OnEvent_def Deq_nonempty)
  have r: "Run 3 failing_OnEvent EventDriven_LogOnEventException EventDriven_LogOnEventException_unknown
     queue_not_empty 100 1
     \<lparr>m_queEvent = ?q, cerr = [''Exception in OnEvent: boom'']\<rparr>
   = Some (Run_returns
       \<lparr>m_queEvent = \<lparr>m_que = [], m_bShutdown = False\<rparr>,
        cerr = [''Exception in OnEvent: boom'', ''Unknown Exception in OnEvent'', ''handled'']\<rparr>)"
    by (simp add: numeral_3_eq_3 queue_not_empty_def failing_OnEvent_def Deq_nonempty
          EventDriven_LogOnEventException_def EventDriven_LogOnEventException_unknown_def)
  from Run_contains_failures [of 3 failing_OnEvent EventDriven_LogOnEventException
        EventDriven_LogOnEventException_unknown queue_not_empty 100 0 ?s
        "Std_exception ''boom''" _ 1 ?q "?s\<lparr>m_queEvent := ?q\<rparr>"] h r
  show ?thesis
    by (simp add: EventDriven_LogOnEventException_def eval_nat_numeral)
qed

section \<open>Properties of the configuration reader\<close>

























lemma foldl_bind_None: "foldl (\<lambda>acc l. acc \<bind> f l) None ls = None"
  by (induction ls) simp_all






section \<open>Properties of registration and dispatch\<close>

lemma emplace_present: "m k = Some v \<Longrightarrow> emplace m k v' = m"
  by (simp add: emplace_def)

text \<open>
  Claim C1 says that a second registration under a key replaces the first.
  The three registration functions insert with \<^verbatim>\<open>emplace\<close>, which keeps
  the element a key already has: after two registrations under one key the
  dispatch of an event with that key runs the first handler, in each of the
  three registries. Here the first handler sets the state to 1 and the second
  to 2.
\<close>

theorem second_registration_is_dropped:
  "map_outcome user
     (vOnEvent (Event_Message \<lparr>strEventName = ''ping'', spPayload = None\<rparr>)
       (RegisterMessageHandler 12 ''ping'' (\<lambda>ev u. (None, 2))
         (RegisterMessageHandler 12 ''ping'' (\<lambda>ev u. (None, 1)) (ProcessBase_ctor (0::nat)))))
     = Completes 1 \<and>
   map_outcome user
     (vOnEvent (Event_Timer \<lparr>unTimerId = 7\<rparr>)
       (RegisterTimer 7 (\<lambda>ev u. (None, 2))
         (RegisterTimer 7 (\<lambda>ev u. (None, 1)) (ProcessBase_ctor (0::nat)))))
     = Completes 1 \<and>
   map_outcome user
     (and_then (and_then (RegisterSignalHandler 12 15 (\<lambda>ev u. (None, 1)) (ProcessBase_ctor (0::nat)))
                  (RegisterSignalHandler 12 15 (\<lambda>ev u. (None, 2))))
        (vOnEvent (Event_Signal \<lparr>snSignal = 15\<rparr>)))
     = Completes 1"
  by (simp add: vOnEvent_def vDispatchMessage_def vDispatchTimer_def vDispatchSignal_def
      RegisterMessageHandler_def RegisterTimer_def RegisterSignalHandler_def
      emplace_def LCC_LOG_def ProcessBase_ctor_def invoke_def Let_def)

text \<open>
  Claim C2 says that the dispatch of a message without a handler stops after
  its warning. \<^verbatim>\<open>vDispatchMessage\<close> writes the warning, then the debug
  line, and then reads the handler from the end iterator; the timer and the
  signal dispatch return after their warning.
\<close>

theorem message_without_handler:
  "vOnEvent (Event_Message \<lparr>strEventName = ''ping'', spPayload = None\<rparr>) (ProcessBase_ctor (0::nat))
     = Undefined_behaviour
         ((ProcessBase_ctor 0)\<lparr>logger :=
            [(LccAlert, ''No handler registered for EventName[%s]'', [Arg_string ''ping'']),
             (LccDebug, ''EventName[%s] Handler Begin.'', [Arg_string ''ping''])]\<rparr>) \<and>
   vOnEvent (Event_Timer \<lparr>unTimerId = 7\<rparr>) (ProcessBase_ctor (0::nat))
     = Completes
         ((ProcessBase_ctor 0)\<lparr>logger :=
            [(LccAlert, ''No handler registered for TimerId[%lu]'', [Arg_number 7])]\<rparr>) \<and>
   vOnEvent (Event_Signal \<lparr>snSignal = 15\<rparr>) (ProcessBase_ctor (0::nat))
     = Completes
         ((ProcessBase_ctor 0)\<lparr>logger :=
            [(LccAlert, ''No handler registered for TimerId[%lu]'', [Arg_number 15])]\<rparr>)"
  by (simp add: vOnEvent_def vDispatchMessage_def vDispatchTimer_def vDispatchSignal_def
      LCC_LOG_def ProcessBase_ctor_def Let_def)

text \<open>
  Claim C8. \<^verbatim>\<open>RegisterSignalHandler\<close> called with the number of
  \<^verbatim>\<open>SIGUSR2\<close> throws the logic error, for every handler and every state
  of the process, and the state at the throw, the registry of signal handlers
  with it, is the state at the call.
\<close>

theorem RegisterSignalHandler_reserved:
  "RegisterSignalHandler SIGUSR2 (scast SIGUSR2) fnHandler p
     = Throws (Logic_error ''Cannot register SIGUSR2 handler: it is reserved for internal use'') p"
  by (simp add: RegisterSignalHandler_def)

end
